theory Spec2Isabelle
  imports Main
begin

section \<open>Python string operations used by the scraper\<close>

text \<open>
  Python strings are modelled as \<open>string\<close> (lists of 8-bit characters); the URLs the
  scraper handles are ASCII. Each function below is the \<open>str\<close> method of the same name,
  restricted to the way \<open>webscraper.py\<close> calls it.
\<close>

fun startswith :: "string \<Rightarrow> string \<Rightarrow> bool" where
  "startswith s [] = True"
| "startswith [] (p # ps) = False"
| "startswith (c # cs) (p # ps) = (c = p \<and> startswith cs ps)"

definition endswith :: "string \<Rightarrow> string \<Rightarrow> bool" where
  "endswith s suf = startswith (rev s) (rev suf)"

text \<open>\<open>sub in s\<close>: \<open>sub\<close> occurs in \<open>s\<close> as a contiguous substring.\<close>

fun contains :: "string \<Rightarrow> string \<Rightarrow> bool" where
  "contains [] sub = (sub = [])"
| "contains (c # cs) sub = (startswith (c # cs) sub \<or> contains cs sub)"

text \<open>\<open>str.lower\<close> on ASCII: the letters A..Z (codes 65..90) move up by 32.\<close>

definition lower_char :: "char \<Rightarrow> char" where
  "lower_char c =
     (let n = (of_char c :: nat) in if 65 \<le> n \<and> n \<le> 90 then char_of (n + 32) else c)"

definition lower :: "string \<Rightarrow> string" where
  "lower s = map lower_char s"

text \<open>\<open>s.strip(chars)\<close>: drop leading and trailing characters that occur in \<open>chars\<close>.\<close>

definition strip :: "string \<Rightarrow> string \<Rightarrow> string" where
  "strip s chars =
     rev (dropWhile (\<lambda>c. c \<in> set chars) (rev (dropWhile (\<lambda>c. c \<in> set chars) s)))"

text \<open>
  \<open>s.replace(old, new)\<close>: every non-overlapping occurrence of \<open>old\<close>, found from the
  left, is replaced. With an empty \<open>old\<close> Python puts \<open>new\<close> before every character and
  at the end.
\<close>

function replace_ne :: "string \<Rightarrow> string \<Rightarrow> string \<Rightarrow> string" where
  "replace_ne [] old new = []"
| "replace_ne (c # cs) old new =
     (if old \<noteq> [] \<and> startswith (c # cs) old
      then new @ replace_ne (drop (length old) (c # cs)) old new
      else c # replace_ne cs old new)"
  by pat_completeness auto
termination
  by (relation "measure (\<lambda>(s, old, new). length s)") (auto simp: neq_Nil_conv)

definition replace :: "string \<Rightarrow> string \<Rightarrow> string \<Rightarrow> string" where
  "replace s old new =
     (if old = [] then new @ concat (map (\<lambda>c. c # new) s) else replace_ne s old new)"

text \<open>\<open>s.split(sep, 1)\<close> for a one-character separator that occurs in \<open>s\<close>.\<close>

definition split1 :: "string \<Rightarrow> char \<Rightarrow> string \<times> string" where
  "split1 s sep = (takeWhile (\<lambda>c. c \<noteq> sep) s, drop 1 (dropWhile (\<lambda>c. c \<noteq> sep) s))"

section \<open>Library functions: \<open>urllib.parse.urlparse\<close> and \<open>os.path.join\<close>\<close>

text \<open>
  The scraper reads two components of \<open>urlparse(url)\<close>: \<open>netloc\<close> and \<open>path\<close>. The
  model follows the standard library's splitting algorithm: an optional scheme up to
  the first colon, a network location after \<open>//\<close> up to the next \<open>/\<close>, \<open>?\<close> or \<open>#\<close>,
  then fragment, query and (for the schemes that have them) the parameters of the last
  path segment. Before splitting, the library drops the leading characters with codes
  0 to 32 (C0 controls and the blank) and removes every tab, line feed and carriage
  return.

  The library raises \<open>ValueError\<close> only for a network location with square brackets
  (an unbalanced bracket or an invalid bracketed host) or with non-ASCII characters
  that normalise to a delimiter. The model does not raise; \<open>plain_url\<close>, defined with
  the notions below, is the condition under which the library returns and the model
  computes its result.
\<close>

record parse_result =
  scheme :: string
  netloc :: string
  path :: string
  params :: string
  query :: string
  fragment :: string

definition scheme_chars :: string where
  "scheme_chars =
     ''abcdefghijklmnopqrstuvwxyzABCDEFGHIJKLMNOPQRSTUVWXYZ0123456789+-.''"

definition isalpha :: "char \<Rightarrow> bool" where
  "isalpha c =
     (let n = (of_char c :: nat) in (65 \<le> n \<and> n \<le> 90) \<or> (97 \<le> n \<and> n \<le> 122))"

definition uses_params :: "string list" where
  "uses_params =
     ['''', ''ftp'', ''hdl'', ''prospero'', ''http'', ''imap'', ''https'', ''shttp'',
      ''rtsp'', ''rtsps'', ''rtspu'', ''sip'', ''sips'', ''mms'', ''sftp'', ''tel'']"

definition split_scheme :: "string \<Rightarrow> string \<times> string" where
  "split_scheme url =
     (let pre = takeWhile (\<lambda>c. c \<noteq> CHR '':'') url in
      if CHR '':'' \<in> set url \<and> pre \<noteq> [] \<and> isalpha (hd url)
         \<and> list_all (\<lambda>c. c \<in> set scheme_chars) pre
      then (lower pre, drop (Suc (length pre)) url)
      else ('''', url))"

definition splitnetloc :: "string \<Rightarrow> string \<times> string" where
  "splitnetloc url =
     (if take 2 url = ''//''
      then (takeWhile (\<lambda>c. c \<notin> set ''/?#'') (drop 2 url),
            dropWhile (\<lambda>c. c \<notin> set ''/?#'') (drop 2 url))
      else ('''', url))"

definition splitparams :: "string \<Rightarrow> string \<times> string" where
  "splitparams url =
     (if CHR ''/'' \<in> set url
      then (let last_seg = rev (takeWhile (\<lambda>c. c \<noteq> CHR ''/'') (rev url));
                front = take (length url - length last_seg) url
            in if CHR '';'' \<in> set last_seg
               then (front @ fst (split1 last_seg CHR '';''), snd (split1 last_seg CHR '';''))
               else (url, ''''))
      else split1 url CHR '';'')"

definition clean_url :: "string \<Rightarrow> string" where
  "clean_url url =
     filter (\<lambda>c. (of_char c :: nat) \<notin> set [9, 10, 13])
       (dropWhile (\<lambda>c. (of_char c :: nat) \<le> 32) url)"

definition urlparse :: "string \<Rightarrow> parse_result" where
  "urlparse url0 =
     (let (sch, url1) = split_scheme (clean_url url0);
          (loc, url2) = splitnetloc url1;
          (url3, frag) = (if CHR ''#'' \<in> set url2 then split1 url2 CHR ''#'' else (url2, ''''));
          (url4, qry) = (if CHR ''?'' \<in> set url3 then split1 url3 CHR ''?'' else (url3, ''''));
          (url5, prm) = (if sch \<in> set uses_params \<and> CHR '';'' \<in> set url4
                         then splitparams url4 else (url4, ''''))
      in \<lparr>scheme = sch, netloc = loc, path = url5, params = prm, query = qry,
          fragment = frag\<rparr>)"

text \<open>\<open>os.path.join(a, b)\<close> on POSIX: an absolute \<open>b\<close> discards \<open>a\<close>.\<close>

definition path_join :: "string \<Rightarrow> string \<Rightarrow> string" where
  "path_join a b =
     (if startswith b ''/'' then b
      else if a = [] \<or> endswith a ''/'' then a @ b
      else a @ ''/'' @ b)"

section \<open>The world the scraper runs in\<close>

text \<open>
  Everything outside the program is an oracle of the environment: what a GET answers
  (or the exception \<open>aiohttp\<close> raises), what \<open>BeautifulSoup\<close> makes of a page, what
  \<open>urljoin\<close> resolves a reference to, and which files cannot be opened for writing.
  All exceptions of the model are subclasses of Python's \<open>Exception\<close>.
\<close>

datatype exn = ClientError | ParserError | ValueError | OSError

datatype response = Response (status: int) (body: string)

text \<open>
  A parsed page, by the queries the scraper makes: the \<open>href\<close> of every \<open>a\<close> tag that
  has one, in document order; the text left once script, style, nav, header, footer and
  img elements are removed; and the text of the \<open>main\<close> element, if there is one.
\<close>

record soup =
  hrefs :: "string list"
  stripped_text :: string
  main_region :: "string option"

record env =
  http_get :: "string \<Rightarrow> exn + response"
  html_parser :: "string \<Rightarrow> exn + soup"
  urljoin :: "string \<Rightarrow> string \<Rightarrow> exn + string"
  unwritable :: "string \<Rightarrow> bool"

text \<open>
  The state: the in-memory ledger \<open>file_op.visitedlinks\<close> (URL to status string), the
  ledger file on disk (\<open>None\<close> when the file does not exist), the document files, the
  lines of \<open>extralinks.txt\<close>, the GET requests issued so far, and the printed lines.
\<close>

record state =
  visitedlinks :: "string \<rightharpoonup> string"
  status_disk :: "(string \<rightharpoonup> string) option"
  files :: "string \<rightharpoonup> string"
  extralinks :: "string list"
  requests :: "string list"
  stdout :: "string list"

section \<open>Setup constants\<close>

definition mainurl :: string where
  "mainurl = ''https://www.wscacademy.org/''"

definition domain :: string where
  "domain = netloc (urlparse mainurl)"

definition data_folder :: string where
  "data_folder = ''wscadata''"

definition status_file :: string where
  "status_file = path_join data_folder ''linkscraped.json''"

section \<open>FileOperation\<close>



definition save_status :: "env \<Rightarrow> state \<Rightarrow> (exn + unit) \<times> state" where
  "save_status e st =
     (if unwritable e status_file then (Inl OSError, st)
      else (Inr (), st\<lparr>status_disk := Some (visitedlinks st)\<rparr>))"

definition create_file :: "string \<Rightarrow> string \<Rightarrow> string" where
  "create_file folder url =
     (let parsed_url = urlparse url;
          p = replace (strip (path parsed_url) ''/'') ''/'' ''_'';
          p' = (if p = [] then ''index'' else p)
      in path_join folder (netloc parsed_url @ ''_'' @ p' @ ''.txt''))"

definition pdf_filename :: "string \<Rightarrow> string \<Rightarrow> string" where
  "pdf_filename folder url = replace (create_file folder url) ''.txt'' ''.pdf''"

definition write_pdf :: "env \<Rightarrow> string \<Rightarrow> string \<Rightarrow> state \<Rightarrow> (exn + unit) \<times> state" where
  "write_pdf e url content st =
     (let filename = pdf_filename data_folder url in
      if unwritable e filename then (Inl OSError, st)
      else (Inr (), st\<lparr>files := (files st)(filename \<mapsto> content)\<rparr>))"

definition write_text :: "env \<Rightarrow> string \<Rightarrow> string \<Rightarrow> state \<Rightarrow> (exn + unit) \<times> state" where
  "write_text e url content st =
     (let filename = create_file data_folder url in
      if unwritable e filename then (Inl OSError, st)
      else (Inr (), st\<lparr>files := (files st)(filename \<mapsto> content)\<rparr>))"

definition add_to_extralinks :: "env \<Rightarrow> string \<Rightarrow> state \<Rightarrow> (exn + unit) \<times> state" where
  "add_to_extralinks e url st =
     (if unwritable e ''extralinks.txt'' then (Inl OSError, st)
      else (Inr (), st\<lparr>extralinks := extralinks st @ [url]\<rparr>))"

section \<open>URLcheck\<close>

definition check_link :: "string \<Rightarrow> string \<Rightarrow> bool" where
  "check_link dmn url = (netloc (urlparse url) = dmn)"

text \<open>
  \<open>extract_links\<close>: the loop over the anchors, with the set \<open>links\<close> as a list without
  repetitions (Python fixes no iteration order for a set). An exception leaves the
  loop with the external links logged so far.
\<close>

fun extract_loop ::
  "env \<Rightarrow> string \<Rightarrow> string \<Rightarrow> string list \<Rightarrow> string list \<Rightarrow> state
     \<Rightarrow> (exn + string list) \<times> state" where
  "extract_loop e dmn base_url [] links st = (Inr links, st)"
| "extract_loop e dmn base_url (href # rest) links st =
     (case urljoin e base_url href of
        Inl x \<Rightarrow> (Inl x, st)
      | Inr full_url \<Rightarrow>
          if check_link dmn full_url
          then extract_loop e dmn base_url rest (List.insert full_url links) st
          else (case add_to_extralinks e full_url st of
                  (Inl x, st') \<Rightarrow> (Inl x, st')
                | (Inr u, st') \<Rightarrow> extract_loop e dmn base_url rest links st'))"

definition extract_links ::
  "env \<Rightarrow> string \<Rightarrow> soup \<Rightarrow> string \<Rightarrow> state \<Rightarrow> (exn + string list) \<times> state" where
  "extract_links e dmn sp base_url st = extract_loop e dmn base_url (hrefs sp) [] st"

section \<open>Scraper\<close>

definition print_line :: "string \<Rightarrow> state \<Rightarrow> state" where
  "print_line l st = st\<lparr>stdout := stdout st @ [l]\<rparr>"

fun exn_str :: "exn \<Rightarrow> string" where
  "exn_str ClientError = ''ClientError''"
| "exn_str ParserError = ''ParserError''"
| "exn_str ValueError = ''ValueError''"
| "exn_str OSError = ''OSError''"

text \<open>\<open>file_op.visitedlinks[url] = v\<close>, the only way the program writes the ledger.\<close>

definition set_status :: "string \<Rightarrow> string \<Rightarrow> state \<Rightarrow> state" where
  "set_status url v st = st\<lparr>visitedlinks := (visitedlinks st)(url \<mapsto> v)\<rparr>"

text \<open>
  \<open>session.get(url)\<close>: the request is issued, then the environment answers with a
  response or with an exception.
\<close>

definition session_get :: "env \<Rightarrow> string \<Rightarrow> state \<Rightarrow> (exn + response) \<times> state" where
  "session_get e url st = (http_get e url, st\<lparr>requests := requests st @ [url]\<rparr>)"

text \<open>\<open>Scraper.fetch\<close>: \<open>Inr None\<close> is Python's \<open>None\<close>; an exception is not caught.\<close>

definition fetch :: "env \<Rightarrow> string \<Rightarrow> state \<Rightarrow> (exn + string option) \<times> state" where
  "fetch e url st =
     (case session_get e url st of
        (Inl x, st') \<Rightarrow> (Inl x, st')
      | (Inr response, st') \<Rightarrow>
          if status response = 200 then (Inr (Some (body response)), st')
          else (Inr None, st'))"

definition process_page :: "env \<Rightarrow> soup \<Rightarrow> string \<Rightarrow> state \<Rightarrow> (exn + unit) \<times> state" where
  "process_page e sp url st =
     (let main_text = (case main_region sp of None \<Rightarrow> stripped_text sp | Some t \<Rightarrow> t)
      in write_text e url main_text st)"

text \<open>
  The block under the lock at the start of \<open>scrape\<close> (lines 150 to 153): the check of
  the ledger and the \<open>pending\<close> mark. No \<open>await\<close> stands inside it, so it runs as one
  step. \<open>True\<close> means the caller goes on to process the URL.
\<close>

definition claim :: "string \<Rightarrow> state \<Rightarrow> bool \<times> state" where
  "claim url st =
     (if visitedlinks st url \<noteq> None then (False, st)
      else (True, set_status url ''pending'' st))"

text \<open>
  \<open>download_pdf\<close>: the whole body is under \<open>try\<close>, so a failing request and a failing
  file write both end in the \<open>except\<close> branch. It returns no exception.
\<close>

definition pdf_except :: "string \<Rightarrow> exn \<Rightarrow> state \<Rightarrow> state" where
  "pdf_except url x st =
     set_status url ''failed''
       (print_line (''Failed to download PDF '' @ url @ '': '' @ exn_str x) st)"

definition download_pdf :: "env \<Rightarrow> string \<Rightarrow> state \<Rightarrow> state" where
  "download_pdf e url st =
     (case session_get e url st of
        (Inl x, st1) \<Rightarrow> pdf_except url x st1
      | (Inr response, st1) \<Rightarrow>
          if status response = 200
          then (case write_pdf e url (body response) st1 of
                  (Inl x, st2) \<Rightarrow> pdf_except url x st2
                | (Inr u, st2) \<Rightarrow> set_status url ''success'' st2)
          else set_status url ''failed'' st1)"

text \<open>The tasks built by the loop over \<open>links\<close> (lines 169 to 176).\<close>

datatype task = DownloadPdf string | Scrape string

fun make_tasks :: "string list \<Rightarrow> task list" where
  "make_tasks [] = []"
| "make_tasks (link # links) =
     (if list_ex (\<lambda>substring. contains (lower link) substring) [''lxml'']
      then make_tasks links
      else if endswith (lower link) ''.pdf''
      then DownloadPdf link # make_tasks links
      else Scrape link # make_tasks links)"

text \<open>
  \<open>asyncio.gather(*tasks)\<close>, serialised. The program starts all the tasks and
  interleaves them at their network waits: which of them claims a URL that several
  reach, and the order of the requests, depend on the timing of the responses. The
  model follows one order only: each task runs to completion before the next starts,
  in list order, and \<open>gather\<close> returns the first exception raised, if any. When a
  task raises, Python hands the exception to the awaiting caller at once, while the
  other tasks are still in flight, and cancels them if the event loop shuts down before
  they finish; the model lets them finish.

  No statement below depends on these choices. Those that run \<open>gather\<close> do so on a
  single task that does not raise, and the statements about the ledger that hold
  under every schedule are made on sequences of ledger steps. \<open>None\<close> means that a
  task did not finish within the recursion budget.
\<close>

fun gather ::
  "(task \<Rightarrow> state \<Rightarrow> ((exn + unit) \<times> state) option) \<Rightarrow> task list \<Rightarrow> state
     \<Rightarrow> ((exn + unit) \<times> state) option" where
  "gather run [] st = Some (Inr (), st)"
| "gather run (t # ts) st =
     (case run t st of
        None \<Rightarrow> None
      | Some (r, st1) \<Rightarrow>
          (case gather run ts st1 of
             None \<Rightarrow> None
           | Some (r', st2) \<Rightarrow> Some (case r of Inl x \<Rightarrow> Inl x | Inr u \<Rightarrow> r', st2)))"

definition run_task ::
  "env \<Rightarrow> (string \<Rightarrow> state \<Rightarrow> ((exn + unit) \<times> state) option) \<Rightarrow> task \<Rightarrow> state
     \<Rightarrow> ((exn + unit) \<times> state) option" where
  "run_task e rec_scrape t st =
     (case t of
        DownloadPdf link \<Rightarrow> Some (Inr (), download_pdf e link st)
      | Scrape link \<Rightarrow> rec_scrape link st)"

text \<open>
  The first three statements of the \<open>try\<close> block of \<open>scrape\<close>: parse the page, extract
  its links, save its text. Each may raise.
\<close>

definition page_steps ::
  "env \<Rightarrow> string \<Rightarrow> string \<Rightarrow> state \<Rightarrow> (exn + string list) \<times> state" where
  "page_steps e url content st =
     (case html_parser e content of
        Inl x \<Rightarrow> (Inl x, st)
      | Inr sp \<Rightarrow>
          (case extract_links e domain sp url st of
             (Inl x, st1) \<Rightarrow> (Inl x, st1)
           | (Inr links, st1) \<Rightarrow>
               (case process_page e sp url st1 of
                  (Inl x, st2) \<Rightarrow> (Inl x, st2)
                | (Inr u, st2) \<Rightarrow> (Inr links, st2))))"

text \<open>The whole \<open>try\<close> block; \<open>asyncio.sleep\<close> changes nothing the model records.\<close>

definition try_block ::
  "env \<Rightarrow> (string \<Rightarrow> state \<Rightarrow> ((exn + unit) \<times> state) option) \<Rightarrow> string \<Rightarrow> string
     \<Rightarrow> state \<Rightarrow> ((exn + unit) \<times> state) option" where
  "try_block e rec_scrape url content st =
     (case page_steps e url content st of
        (Inl x, st1) \<Rightarrow> Some (Inl x, st1)
      | (Inr links, st1) \<Rightarrow> gather (run_task e rec_scrape) (make_tasks links) st1)"

definition error_message :: "string \<Rightarrow> exn \<Rightarrow> string" where
  "error_message url x = ''An error occurred while processing '' @ url @ '': '' @ exn_str x"

text \<open>
  \<open>Scraper.scrape\<close>. The recursion has no bound in the program (a site can go on
  producing new links), so the model takes a budget \<open>n\<close> for the depth of nested calls
  and returns \<open>None\<close> when it runs out. \<open>Inl x\<close> is an exception leaving \<open>scrape\<close>.
\<close>

fun scrape :: "env \<Rightarrow> nat \<Rightarrow> string \<Rightarrow> state \<Rightarrow> ((exn + unit) \<times> state) option" where
  "scrape e 0 url st = None"
| "scrape e (Suc n) url st =
     (case claim url st of
        (False, st0) \<Rightarrow> Some (Inr (), st0)
      | (True, st0) \<Rightarrow>
          (case fetch e url (print_line (''Visiting: '' @ url) st0) of
             (Inl x, st1) \<Rightarrow> Some (Inl x, st1)
           | (Inr None, st1) \<Rightarrow> Some (Inr (), set_status url ''failed'' st1)
           | (Inr (Some content), st1) \<Rightarrow>
               (case try_block e (\<lambda>link s. scrape e n link s) url content
                       (set_status url ''success'' st1) of
                  None \<Rightarrow> None
                | Some (Inl x, st2) \<Rightarrow>
                    Some (save_status e (print_line (error_message url x) st2))
                | Some (Inr u, st2) \<Rightarrow> Some (save_status e st2))))"

text \<open>\<open>main\<close>: the seed is always handed to \<open>scrape\<close>.\<close>

definition main :: "env \<Rightarrow> nat \<Rightarrow> state \<Rightarrow> ((exn + unit) \<times> state) option" where
  "main e n st = scrape e n mainurl st"

section \<open>Notions used to state the properties\<close>

text \<open>
  Any sequence of ledger assignments, as other tasks may perform between two steps of
  one task. Every ledger write of the program is a \<open>set_status\<close>.
\<close>

definition ledger_writes :: "(string \<times> string) list \<Rightarrow> state \<Rightarrow> state" where
  "ledger_writes ws st = foldl (\<lambda>s (url, v). set_status url v s) st ws"





text \<open>
  URLs made of ASCII characters other than square brackets. On these the library's
  \<open>urlparse\<close> returns, and \<open>urlparse\<close> above computes what it returns.
\<close>

definition plain_url :: "string \<Rightarrow> bool" where
  "plain_url url = list_all (\<lambda>c. (of_char c :: nat) < 128 \<and> c \<notin> set ''[]'') url"

text \<open>
  The host of a network location, as the \<open>hostname\<close> attribute of the library's
  parse result gives it: what follows the last \<open>@\<close>, up to the port (inside the
  brackets for a bracketed host), in lower case up to a zone mark \<open>%\<close>; \<open>None\<close> when
  that is empty.
\<close>

definition hostname_of :: "string \<Rightarrow> string option" where
  "hostname_of loc =
     (let hostinfo = rev (takeWhile (\<lambda>c. c \<noteq> CHR ''@'') (rev loc));
          h = (if CHR ''['' \<in> set hostinfo
               then takeWhile (\<lambda>c. c \<noteq> CHR '']'')
                      (drop 1 (dropWhile (\<lambda>c. c \<noteq> CHR ''['') hostinfo))
               else takeWhile (\<lambda>c. c \<noteq> CHR '':'') hostinfo)
      in if h = [] then None
         else Some (lower (takeWhile (\<lambda>c. c \<noteq> CHR ''%'') h)
                    @ dropWhile (\<lambda>c. c \<noteq> CHR ''%'') h))"

text \<open>
  The file name in the words of the specification, without its extension and with the
  network location where the specification says host: the network location, an
  underscore, and the sanitized path (outer slashes stripped, inner slashes turned into
  underscores, \<open>index\<close> when nothing is left), in the data folder.
\<close>

definition spec_sanitized_path :: "string \<Rightarrow> string" where
  "spec_sanitized_path url =
     (let p = strip (path (urlparse url)) ''/''
      in if p = [] then ''index''
         else map (\<lambda>c. if c = CHR ''/'' then CHR ''_'' else c) p)"

definition spec_base_name :: "string \<Rightarrow> string \<Rightarrow> string" where
  "spec_base_name folder url =
     path_join folder (netloc (urlparse url) @ ''_'' @ spec_sanitized_path url)"

text \<open>The absolute URLs that the anchors of a page resolve to, in document order.\<close>

definition full_urls :: "env \<Rightarrow> string \<Rightarrow> string list \<Rightarrow> string list" where
  "full_urls e base_url hs =
     concat (map (\<lambda>href. case urljoin e base_url href of Inl x \<Rightarrow> [] | Inr u \<Rightarrow> [u]) hs)"

section \<open>Reference inputs\<close>

text \<open>A first run: empty ledger, no ledger file, nothing written, nothing requested.\<close>

definition fresh :: state where
  "fresh = \<lparr>visitedlinks = Map.empty, status_disk = None, files = Map.empty,
            extralinks = [], requests = [], stdout = []\<rparr>"

text \<open>
  A server that answers every request with the same status, pages without anchors,
  references that resolve to themselves, and a writable file system.
\<close>

definition env_status :: "int \<Rightarrow> env" where
  "env_status s =
     \<lparr>http_get = (\<lambda>url. Inr (Response s ''page'')),
      html_parser = (\<lambda>content. Inr \<lparr>hrefs = [], stripped_text = content, main_region = None\<rparr>),
      urljoin = (\<lambda>base_url href. Inr href),
      unwritable = (\<lambda>filename. False)\<rparr>"

text \<open>A host that cannot be reached: every request raises.\<close>

definition env_down :: env where
  "env_down = (env_status 200)\<lparr>http_get := (\<lambda>url. Inl ClientError)\<rparr>"

text \<open>A server whose pages the parser rejects.\<close>

definition env_broken_page :: env where
  "env_broken_page = (env_status 200)\<lparr>html_parser := (\<lambda>content. Inl ParserError)\<rparr>"

text \<open>A site whose every page links to one PDF document.\<close>

definition pdf_url :: string where
  "pdf_url = ''https://www.wscacademy.org/a.pdf''"

definition env_site :: env where
  "env_site =
     (env_status 200)
       \<lparr>html_parser := (\<lambda>content. Inr \<lparr>hrefs = [''a.pdf''], stripped_text = content,
                                       main_region = None\<rparr>),
        urljoin := (\<lambda>base_url href. Inr (''https://www.wscacademy.org/'' @ href))\<rparr>"


text \<open>URLs on the target host that name a port, or a user.\<close>

definition port_url :: string where
  "port_url = ''https://www.wscacademy.org:443/a''"

definition user_url :: string where
  "user_url = ''https://user@www.wscacademy.org/''"

text \<open>A PDF document whose name contains \<open>.txt\<close>.\<close>

definition readme_url :: string where
  "readme_url = ''https://host.tld/docs/readme.txt.pdf''"

text \<open>A seed page with one link, to a page that the server does not have.\<close>

definition dead_url :: string where
  "dead_url = ''https://www.wscacademy.org/missing''"

definition env_dead_link :: env where
  "env_dead_link =
     (env_status 404)
       \<lparr>http_get := (\<lambda>url. if url = mainurl then Inr (Response 200 ''page'')
                             else Inr (Response 404 [])),
        html_parser := (\<lambda>content. Inr \<lparr>hrefs = [''missing''], stripped_text = content,
                                       main_region = None\<rparr>),
        urljoin := (\<lambda>base_url href. Inr (''https://www.wscacademy.org/'' @ href))\<rparr>"

text \<open>What the ledger file records for a URL.\<close>

definition persisted :: "state \<Rightarrow> string \<Rightarrow> string option" where
  "persisted st url = (case status_disk st of None \<Rightarrow> None | Some m \<Rightarrow> m url)"

text \<open>A page on \<open>example.com\<close> with one internal and two external links.\<close>

definition example_page :: soup where
  "example_page =
     \<lparr>hrefs = [''http://other.example.com/page'', ''http://example.com/about'',
               ''http://www.example.com/''],
      stripped_text = [], main_region = None\<rparr>"

text \<open>A link whose path ends in \<open>.pdf\<close> and that carries a query string.\<close>

definition pdf_query_url :: string where
  "pdf_query_url = ''https://www.wscacademy.org/a.pdf?v=2''"

section \<open>Facts about the string operations\<close>

lemma startswith_iff: "startswith s p = (\<exists>r. s = p @ r)"
  by (induction s p rule: startswith.induct) auto

lemma endswith_iff: "endswith s suf = (\<exists>r. s = r @ suf)"
proof -
  have "endswith s suf = (\<exists>r. rev s = rev suf @ r)"
    by (simp add: endswith_def startswith_iff)
  also have "\<dots> = (\<exists>r. s = r @ suf)"
  proof
    assume "\<exists>r. rev s = rev suf @ r"
    then obtain r where "rev s = rev suf @ r" by blast
    then have "rev (rev s) = rev (rev suf @ r)" by simp
    then have "s = rev r @ suf" by simp
    then show "\<exists>r. s = r @ suf" by blast
  next
    assume "\<exists>r. s = r @ suf"
    then show "\<exists>r. rev s = rev suf @ r" by auto
  qed
  finally show ?thesis .
qed

text \<open>Replacing one character by another is a \<open>map\<close>.\<close>

lemma replace_ne_single:
  "replace_ne s [a] [b] = map (\<lambda>c. if c = a then b else c) s"
  by (induction s) auto

text \<open>
  No proper suffix of \<open>.txt\<close> is a prefix of it: what follows a leading \<open>.txt\<close> in a
  longer string that ends in \<open>.txt\<close> ends in \<open>.txt\<close> itself.
\<close>

lemma txt_border:
  assumes "''.txt'' @ q = r @ ''.txt''" and "q \<noteq> []"
  shows "\<exists>r'. q = r' @ ''.txt''"
proof (cases r)
  case Nil
  with assms show ?thesis by simp
next
  case r1: (Cons a r1)
  show ?thesis
  proof (cases r1)
    case Nil
    with assms r1 show ?thesis by simp
  next
    case r2: (Cons b r2)
    show ?thesis
    proof (cases r2)
      case Nil
      with assms r1 r2 show ?thesis by simp
    next
      case r3: (Cons c r3)
      show ?thesis
      proof (cases r3)
        case Nil
        with assms r1 r2 r3 show ?thesis by simp
      next
        case (Cons d r4)
        with assms r1 r2 r3 show ?thesis by simp
      qed
    qed
  qed
qed

text \<open>So the final \<open>.txt\<close> is always among the occurrences that \<open>replace\<close> rewrites.\<close>

lemma replace_txt_suffix:
  "\<exists>r. s = r @ ''.txt'' \<Longrightarrow> \<exists>r. replace_ne s ''.txt'' ''.pdf'' = r @ ''.pdf''"
proof (induction s rule: length_induct)
  case (1 s)
  from "1.prems" obtain r where r: "s = r @ ''.txt''" by blast
  then have "s \<noteq> []" by simp
  then obtain c cs where s: "s = c # cs" by (cases s) simp_all
  show ?case
  proof (cases "startswith s ''.txt''")
    case True
    then obtain q where q: "s = ''.txt'' @ q"
      unfolding startswith_iff by blast
    then have dq: "drop (length ''.txt'') s = q" by simp
    have step: "replace_ne s ''.txt'' ''.pdf'' = ''.pdf'' @ replace_ne q ''.txt'' ''.pdf''"
      using True dq unfolding s by (simp del: startswith.simps)
    show ?thesis
    proof (cases "q = []")
      case True
      with step show ?thesis by simp
    next
      case False
      from r q have "''.txt'' @ q = r @ ''.txt''" by simp
      then have "\<exists>r'. q = r' @ ''.txt''" using False by (rule txt_border)
      moreover have "length q < length s" using q by simp
      ultimately obtain r' where "replace_ne q ''.txt'' ''.pdf'' = r' @ ''.pdf''"
        using "1.IH" by blast
      with step show ?thesis by simp
    qed
  next
    case False
    have "r \<noteq> []" using r False by auto
    with r s have "cs = tl r @ ''.txt''" by (cases r) auto
    then have "\<exists>r. cs = r @ ''.txt''" by blast
    moreover have "length cs < length s" using s by simp
    ultimately obtain r' where "replace_ne cs ''.txt'' ''.pdf'' = r' @ ''.pdf''"
      using "1.IH" by blast
    with False show ?thesis unfolding s by (simp del: startswith.simps)
  qed
qed

lemmas urlparse_defs =
  urlparse_def clean_url_def split_scheme_def splitnetloc_def splitparams_def split1_def isalpha_def
  scheme_chars_def uses_params_def lower_def lower_char_def

lemmas filename_defs =
  create_file_def pdf_filename_def data_folder_def replace_def strip_def path_join_def
  endswith_def

lemma domain_value: "domain = ''www.wscacademy.org''"
  by (simp add: domain_def mainurl_def urlparse_defs)

section \<open>The visitation ledger\<close>

lemma ledger_writes_keeps_entries:
  "visitedlinks st url \<noteq> None \<Longrightarrow> visitedlinks (ledger_writes ws st) url \<noteq> None"
  unfolding ledger_writes_def
  by (induction ws arbitrary: st) (auto simp: set_status_def)

lemma claim_marks: "visitedlinks (snd (claim url st)) url \<noteq> None"
  by (simp add: claim_def set_status_def)

text \<open>
  Claim C1. The claim step answers true, and marks the URL \<open>pending\<close>, exactly when
  the URL has no entry in the ledger; when the URL has any entry it answers false and
  changes nothing. Of two callers that claim the same URL, whatever ledger writes
  \<open>ws\<close> happen between them, the second never succeeds: the first succeeds exactly
  when the URL was unclaimed, so an unclaimed URL is won by exactly one of the two.
\<close>

theorem claim_exactly_once:
  "fst (claim url st) = (visitedlinks st url = None)
   \<and> snd (claim url st)
       = (if visitedlinks st url = None
          then st\<lparr>visitedlinks := (visitedlinks st)(url \<mapsto> ''pending'')\<rparr> else st)
   \<and> (fst (claim url st), fst (claim url (ledger_writes ws (snd (claim url st)))))
       = (visitedlinks st url = None, False)"
proof -
  have "visitedlinks (ledger_writes ws (snd (claim url st))) url \<noteq> None"
    by (rule ledger_writes_keeps_entries) (rule claim_marks)
  then have "fst (claim url (ledger_writes ws (snd (claim url st)))) = False"
    by (simp add: claim_def)
  then show ?thesis
    by (simp add: claim_def set_status_def)
qed

section \<open>File names\<close>

lemma path_join_suffix: "\<exists>r. path_join a (b @ suf) = r @ suf"
proof -
  have "a @ b @ suf = (a @ b) @ suf" and "a @ ''/'' @ b @ suf = (a @ ''/'' @ b) @ suf"
    by simp_all
  then show ?thesis
    unfolding path_join_def by (metis append_Nil)
qed

lemma create_file_txt: "endswith (create_file folder url) ''.txt''"
proof -
  have "\<exists>r. path_join folder ((n @ ''_'' @ p) @ ''.txt'') = r @ ''.txt''" for n p
    by (rule path_join_suffix)
  then show ?thesis
    by (simp add: endswith_iff create_file_def Let_def)
qed

lemma pdf_filename_pdf: "endswith (pdf_filename folder url) ''.pdf''"
proof -
  have "\<exists>r. create_file folder url = r @ ''.txt''"
    using create_file_txt by (simp add: endswith_iff)
  then have "\<exists>r. replace_ne (create_file folder url) ''.txt'' ''.pdf'' = r @ ''.pdf''"
    by (rule replace_txt_suffix)
  then show ?thesis
    by (simp add: pdf_filename_def replace_def endswith_iff)
qed

lemma path_join_append: "b \<noteq> [] \<Longrightarrow> path_join a (b @ s) = path_join a b @ s"
  by (cases b) (simp_all add: path_join_def)

text \<open>The name \<open>create_file\<close> computes is the specification's name with \<open>.txt\<close>.\<close>

lemma create_file_base: "create_file folder url = spec_base_name folder url @ ''.txt''"
proof -
  have "path_join folder ((n @ ''_'' @ p) @ ''.txt'') = path_join folder (n @ ''_'' @ p) @ ''.txt''"
    for n p
    by (rule path_join_append) simp
  then show ?thesis
    by (simp add: create_file_def spec_base_name_def spec_sanitized_path_def replace_def
        replace_ne_single Let_def)
qed

text \<open>
  An occurrence of \<open>.txt\<close> at the start of \<open>s\<close> followed by \<open>.txt\<close> lies inside \<open>s\<close>:
  it cannot run over into the extension.
\<close>

lemma txt_prefix:
  assumes "s \<noteq> []"
  shows "startswith (s @ ''.txt'') ''.txt'' = startswith s ''.txt''"
proof (cases s)
  case Nil
  with assms show ?thesis by simp
next
  case s1: (Cons a s1)
  show ?thesis
  proof (cases s1)
    case Nil
    with s1 show ?thesis by auto
  next
    case s2: (Cons b s2)
    show ?thesis
    proof (cases s2)
      case Nil
      with s1 s2 show ?thesis by auto
    next
      case s3: (Cons c s3)
      show ?thesis
      proof (cases s3)
        case Nil
        with s1 s2 s3 show ?thesis by auto
      next
        case (Cons d s4)
        with s1 s2 s3 show ?thesis by simp
      qed
    qed
  qed
qed

text \<open>When \<open>.txt\<close> does not occur in \<open>s\<close>, only the extension is rewritten.\<close>

lemma replace_txt_once:
  "\<not> contains s ''.txt'' \<Longrightarrow> replace_ne (s @ ''.txt'') ''.txt'' ''.pdf'' = s @ ''.pdf''"
proof (induction s)
  case Nil
  then show ?case by simp
next
  case (Cons c cs)
  from Cons.prems have a: "\<not> startswith (c # cs) ''.txt''" and b: "\<not> contains cs ''.txt''"
    by (simp_all del: startswith.simps)
  have "startswith ((c # cs) @ ''.txt'') ''.txt'' = startswith (c # cs) ''.txt''"
    by (rule txt_prefix) simp
  with a have "\<not> startswith (c # (cs @ ''.txt'')) ''.txt''"
    by (simp del: startswith.simps)
  then have "replace_ne (c # (cs @ ''.txt'')) ''.txt'' ''.pdf''
             = c # replace_ne (cs @ ''.txt'') ''.txt'' ''.pdf''"
    by (simp del: startswith.simps)
  with Cons.IH[OF b] show ?case by simp
qed

lemma pdf_filename_base:
  "\<not> contains (spec_base_name folder url) ''.txt''
   \<Longrightarrow> pdf_filename folder url = spec_base_name folder url @ ''.pdf''"
  by (simp add: pdf_filename_def create_file_base replace_def replace_txt_once)

lemma create_file_root:
  "create_file data_folder ''https://host.tld/'' = ''wscadata/host.tld_index.txt''"
  by (simp add: filename_defs urlparse_defs)

lemma create_file_no_path:
  "create_file data_folder ''https://host.tld'' = ''wscadata/host.tld_index.txt''"
  by (simp add: filename_defs urlparse_defs)

lemma create_file_a_b:
  "create_file data_folder ''https://host.tld/a/b'' = ''wscadata/host.tld_a_b.txt''"
  by (simp add: filename_defs urlparse_defs)

lemma pdf_filename_root:
  "pdf_filename data_folder ''https://host.tld/'' = ''wscadata/host.tld_index.pdf''"
  by (simp add: filename_defs urlparse_defs)

lemma pdf_filename_a_b:
  "pdf_filename data_folder ''https://host.tld/a/b'' = ''wscadata/host.tld_a_b.pdf''"
  by (simp add: filename_defs urlparse_defs)

text \<open>
  Claim C7, as stated, fails in two places. The name is built from the network
  location, not from the host: a port named in the URL is part of the file name. And
  \<open>write_pdf\<close> turns every \<open>.txt\<close> of the text name into \<open>.pdf\<close>, not only the
  extension: for a document whose name contains \<open>.txt\<close> the PDF file is not the
  specification's name with \<open>.pdf\<close>.
\<close>

theorem pdf_name_rewrites_inner_txt:
  "plain_url readme_url
   \<and> spec_base_name data_folder readme_url = ''wscadata/host.tld_docs_readme.txt.pdf''
   \<and> pdf_filename data_folder readme_url = ''wscadata/host.tld_docs_readme.pdf.pdf.pdf''
   \<and> pdf_filename data_folder readme_url \<noteq> spec_base_name data_folder readme_url @ ''.pdf''
   \<and> hostname_of (netloc (urlparse ''https://host.tld:8080/a'')) = Some ''host.tld''
   \<and> create_file data_folder ''https://host.tld:8080/a'' = ''wscadata/host.tld:8080_a.txt''"
  by (simp add: readme_url_def plain_url_def spec_base_name_def spec_sanitized_path_def
      hostname_of_def filename_defs urlparse_defs)

text \<open>
  Claim C7, amended. For every URL that the library parses, \<open>create_file\<close> names the
  text file after the network location of the URL as written (the host with any user
  and port), an underscore, and the path with its leading and trailing slashes
  stripped and every remaining slash turned into an underscore, or \<open>index\<close> when
  nothing remains of the path, with the extension \<open>.txt\<close>, in the data folder. The
  name \<open>write_pdf\<close> derives from it ends in \<open>.pdf\<close>, and is the same name with the
  extension \<open>.pdf\<close> whenever \<open>.txt\<close> does not occur in the name before the extension.
  For \<open>https://host.tld/\<close> (and for \<open>https://host.tld\<close>) the name is
  \<open>host.tld_index\<close>, for \<open>https://host.tld/a/b\<close> it is \<open>host.tld_a_b\<close>.
\<close>

theorem create_file_name:
  "(plain_url url
      \<longrightarrow> create_file folder url = spec_base_name folder url @ ''.txt''
          \<and> endswith (pdf_filename folder url) ''.pdf''
          \<and> (\<not> contains (spec_base_name folder url) ''.txt''
               \<longrightarrow> pdf_filename folder url = spec_base_name folder url @ ''.pdf''))
   \<and> create_file data_folder ''https://host.tld/'' = ''wscadata/host.tld_index.txt''
   \<and> create_file data_folder ''https://host.tld'' = ''wscadata/host.tld_index.txt''
   \<and> create_file data_folder ''https://host.tld/a/b'' = ''wscadata/host.tld_a_b.txt''
   \<and> pdf_filename data_folder ''https://host.tld/'' = ''wscadata/host.tld_index.pdf''
   \<and> pdf_filename data_folder ''https://host.tld/a/b'' = ''wscadata/host.tld_a_b.pdf''"
  by (intro conjI impI create_file_base pdf_filename_pdf pdf_filename_base create_file_root
      create_file_no_path create_file_a_b pdf_filename_root pdf_filename_a_b)

theorem create_file_name_witness:
  "plain_url ''https://host.tld/a/b''
   \<and> \<not> contains (spec_base_name data_folder ''https://host.tld/a/b'') ''.txt''
   \<and> spec_base_name data_folder ''https://host.tld/a/b'' = ''wscadata/host.tld_a_b''
   \<and> create_file data_folder ''https://host.tld/a/b''
       = spec_base_name data_folder ''https://host.tld/a/b'' @ ''.txt''
   \<and> endswith (pdf_filename data_folder ''https://host.tld/a/b'') ''.pdf''
   \<and> pdf_filename data_folder ''https://host.tld/a/b''
       = spec_base_name data_folder ''https://host.tld/a/b'' @ ''.pdf''"
proof -
  have h1: "plain_url ''https://host.tld/a/b''"
    by (simp add: plain_url_def)
  have b: "spec_base_name data_folder ''https://host.tld/a/b'' = ''wscadata/host.tld_a_b''"
    by (simp add: spec_base_name_def spec_sanitized_path_def filename_defs urlparse_defs)
  have h2: "\<not> contains (spec_base_name data_folder ''https://host.tld/a/b'') ''.txt''"
    unfolding b by simp
  from create_file_name[of "''https://host.tld/a/b''" data_folder] h1 h2 b
  show ?thesis by blast
qed

section \<open>Fetching\<close>

lemma fetch_200:
  "http_get e url = Inr (Response 200 content)
   \<Longrightarrow> fetch e url st = (Inr (Some content), st\<lparr>requests := requests st @ [url]\<rparr>)"
  by (simp add: fetch_def session_get_def)

text \<open>
  Claim C9. When the request is answered with a response, \<open>fetch\<close> returns the page
  content if the status is 200 and \<open>None\<close> for every other status, 201 and 204
  included: it returns content exactly when the status is 200.
\<close>

theorem fetch_ok_iff_200:
  assumes "http_get e url = Inr (Response s b)"
  shows "fst (fetch e url st) = (if s = 200 then Inr (Some b) else Inr None)
         \<and> ((\<exists>content. fst (fetch e url st) = Inr (Some content)) = (s = 200))"
  using assms by (simp add: fetch_def session_get_def)

theorem fetch_ok_iff_200_witness:
  "http_get (env_status 204) mainurl = Inr (Response 204 ''page'')
   \<and> fst (fetch (env_status 204) mainurl fresh) = Inr None
   \<and> http_get (env_status 200) mainurl = Inr (Response 200 ''page'')
   \<and> fst (fetch (env_status 200) mainurl fresh) = Inr (Some ''page'')"
proof -
  have h: "http_get (env_status 204) mainurl = Inr (Response 204 ''page'')"
    by (simp add: env_status_def)
  have k: "http_get (env_status 200) mainurl = Inr (Response 200 ''page'')"
    by (simp add: env_status_def)
  from fetch_ok_iff_200[OF h, of fresh] fetch_ok_iff_200[OF k, of fresh] h k
  show ?thesis by simp
qed

text \<open>
  Claim C10. When the HTML fetch of an unclaimed URL is answered with a status other
  than 200, \<open>scrape\<close> returns with the URL marked \<open>failed\<close> in the ledger in memory and
  with the ledger file, the document files and the external-link log as they were:
  \<open>save_status\<close> is not reached on this path.
\<close>

theorem failed_fetch_is_not_persisted:
  assumes "visitedlinks st url = None"
    and "http_get e url = Inr (Response s b)"
    and "s \<noteq> 200"
  shows "\<exists>st'. scrape e (Suc n) url st = Some (Inr (), st')
           \<and> visitedlinks st' = (visitedlinks st)(url \<mapsto> ''failed'')
           \<and> status_disk st' = status_disk st
           \<and> files st' = files st
           \<and> extralinks st' = extralinks st
           \<and> requests st' = requests st @ [url]
           \<and> stdout st' = stdout st @ [''Visiting: '' @ url]"
proof -
  let ?s = "st\<lparr>visitedlinks := (visitedlinks st)(url \<mapsto> ''failed''),
               requests := requests st @ [url],
               stdout := stdout st @ [''Visiting: '' @ url]\<rparr>"
  have "scrape e (Suc n) url st = Some (Inr (), ?s)"
    using assms
    by (simp add: claim_def fetch_def session_get_def set_status_def print_line_def)
  then show ?thesis
    by (intro exI[of _ ?s]) simp
qed

theorem failed_fetch_is_not_persisted_witness:
  "visitedlinks fresh mainurl = None
   \<and> http_get (env_status 404) mainurl = Inr (Response 404 ''page'')
   \<and> (404 :: int) \<noteq> 200
   \<and> (\<exists>st'. scrape (env_status 404) (Suc 0) mainurl fresh = Some (Inr (), st')
          \<and> visitedlinks st' mainurl = Some ''failed''
          \<and> status_disk st' = None)"
proof -
  have h1: "visitedlinks fresh mainurl = None"
    by (simp add: fresh_def)
  have h2: "http_get (env_status 404) mainurl = Inr (Response 404 ''page'')"
    by (simp add: env_status_def)
  have h3: "(404 :: int) \<noteq> 200"
    by simp
  from failed_fetch_is_not_persisted[OF h1 h2 h3, of 0]
  obtain st' where "scrape (env_status 404) (Suc 0) mainurl fresh = Some (Inr (), st')"
    and "visitedlinks st' = (visitedlinks fresh)(mainurl \<mapsto> ''failed'')"
    and "status_disk st' = status_disk fresh"
    by blast
  then have "scrape (env_status 404) (Suc 0) mainurl fresh = Some (Inr (), st')
             \<and> visitedlinks st' mainurl = Some ''failed'' \<and> status_disk st' = None"
    by (simp add: fresh_def)
  then have "\<exists>st'. scrape (env_status 404) (Suc 0) mainurl fresh = Some (Inr (), st')
             \<and> visitedlinks st' mainurl = Some ''failed'' \<and> status_disk st' = None"
    by (rule exI)
  with h1 h2 h3 show ?thesis by blast
qed

text \<open>
  The failure reaches the ledger file with the next save: here the seed page links to a
  page that answers 404, and the save at the end of the seed page records both.
\<close>

lemma parent_persists_failed_child:
  "map_option (\<lambda>r. (fst r, persisted (snd r) dead_url, persisted (snd r) mainurl,
                      requests (snd r)))
     (main env_dead_link 2 fresh)
   = Some (Inr (), Some ''failed'', Some ''success'', [mainurl, dead_url])"
  by (simp add: main_def numeral_2_eq_2 claim_def fetch_def session_get_def
      set_status_def print_line_def save_status_def try_block_def page_steps_def
      extract_links_def process_page_def write_text_def run_task_def check_link_def
      domain_value env_dead_link_def env_status_def fresh_def mainurl_def dead_url_def
      persisted_def status_file_def filename_defs urlparse_defs List.insert_def)

section \<open>Link extraction\<close>

lemma extract_loop_returns:
  assumes "extract_loop e dmn base_url hs links st = (Inr out, st')"
  shows "set out = set links \<union> set (filter (check_link dmn) (full_urls e base_url hs))
         \<and> st' = st\<lparr>extralinks := extralinks st
                        @ filter (\<lambda>u. \<not> check_link dmn u) (full_urls e base_url hs)\<rparr>
         \<and> length (full_urls e base_url hs) = length hs
         \<and> (distinct links \<longrightarrow> distinct out)"
  using assms
proof (induction hs arbitrary: links st)
  case Nil
  then show ?case by (simp add: full_urls_def)
next
  case (Cons href rest)
  show ?case
  proof (cases "urljoin e base_url href")
    case (Inl x)
    with Cons.prems show ?thesis by simp
  next
    case (Inr full_url)
    show ?thesis
    proof (cases "check_link dmn full_url")
      case True
      with Cons.prems Inr
      have "extract_loop e dmn base_url rest (List.insert full_url links) st = (Inr out, st')"
        by simp
      from Cons.IH[OF this] Inr True show ?thesis
        by (auto simp: full_urls_def)
    next
      case False
      show ?thesis
      proof (cases "unwritable e ''extralinks.txt''")
        case True
        with Cons.prems Inr False show ?thesis
          by (simp add: add_to_extralinks_def)
      next
        case writable: False
        with Cons.prems Inr False
        have "extract_loop e dmn base_url rest links
                (st\<lparr>extralinks := extralinks st @ [full_url]\<rparr>) = (Inr out, st')"
          by (simp add: add_to_extralinks_def)
        from Cons.IH[OF this] Inr False show ?thesis
          by (auto simp: full_urls_def)
      qed
    qed
  qed
qed

text \<open>Whether the loop raises, and what, does not depend on the state.\<close>

lemma extract_loop_outcome:
  "fst (extract_loop e dmn base_url hs links st) = fst (extract_loop e dmn base_url hs links st2)"
proof (induction hs arbitrary: links st st2)
  case Nil
  then show ?case by simp
next
  case (Cons href rest)
  then show ?case
    by (auto simp: add_to_extralinks_def split: sum.splits)
qed

text \<open>The loop touches only the external-link log.\<close>

lemma extract_loop_frame:
  "visitedlinks (snd (extract_loop e dmn base_url hs links st)) = visitedlinks st
   \<and> stdout (snd (extract_loop e dmn base_url hs links st)) = stdout st
   \<and> requests (snd (extract_loop e dmn base_url hs links st)) = requests st
   \<and> status_disk (snd (extract_loop e dmn base_url hs links st)) = status_disk st"
proof (induction hs arbitrary: links st)
  case Nil
  then show ?case by simp
next
  case (Cons href rest)
  then show ?case
    by (auto simp: add_to_extralinks_def split: sum.splits)
qed

text \<open>
  Claim C6, as stated, fails: \<open>check_link\<close> compares the network location, not the
  host. A URL on the target host that names the port, or a user, is classified as
  outside the domain.
\<close>

theorem same_host_is_external:
  "hostname_of domain = Some ''www.wscacademy.org''
   \<and> plain_url port_url
   \<and> hostname_of (netloc (urlparse port_url)) = hostname_of domain
   \<and> check_link domain port_url = False
   \<and> plain_url user_url
   \<and> hostname_of (netloc (urlparse user_url)) = hostname_of domain
   \<and> check_link domain user_url = False"
  by (simp add: domain_value port_url_def user_url_def plain_url_def hostname_of_def
      check_link_def urlparse_defs)

text \<open>
  Claim C6, amended. For every URL that the library parses, \<open>check_link\<close> holds
  exactly when the network location of the URL as written (the host with any user and
  port, letter case kept) equals the configured one; nothing is normalised, and the
  scheme plays no part. A link that passes is on the configured host; a link on the
  configured host need not pass. When \<open>extract_links\<close> returns, every anchor has been
  resolved, the links returned are exactly the resolved URLs that pass, each once, and
  the state differs only in the external-link log, which has grown by exactly the
  resolved URLs that do not pass, in document order and with repetitions.
\<close>

theorem domain_filter:
  "(plain_url url \<longrightarrow> check_link dmn url = (netloc (urlparse url) = dmn))
   \<and> (check_link dmn url \<longrightarrow> hostname_of (netloc (urlparse url)) = hostname_of dmn)
   \<and> (list_all plain_url (full_urls e base_url (hrefs sp))
        \<and> extract_links e dmn sp base_url st = (Inr links, st')
        \<longrightarrow> set links
              = {u. u \<in> set (full_urls e base_url (hrefs sp)) \<and> netloc (urlparse u) = dmn}
            \<and> distinct links
            \<and> st' = st\<lparr>extralinks := extralinks st
                           @ filter (\<lambda>u. netloc (urlparse u) \<noteq> dmn)
                               (full_urls e base_url (hrefs sp))\<rparr>
            \<and> length (full_urls e base_url (hrefs sp)) = length (hrefs sp))"
proof (intro conjI impI)
  show "check_link dmn url = (netloc (urlparse url) = dmn)"
    by (simp add: check_link_def)
next
  assume "check_link dmn url"
  then show "hostname_of (netloc (urlparse url)) = hostname_of dmn"
    by (simp add: check_link_def)
next
  assume "list_all plain_url (full_urls e base_url (hrefs sp))
          \<and> extract_links e dmn sp base_url st = (Inr links, st')"
  then have run: "extract_loop e dmn base_url (hrefs sp) [] st = (Inr links, st')"
    by (simp add: extract_links_def)
  note facts = extract_loop_returns[OF run]
  show "set links
        = {u. u \<in> set (full_urls e base_url (hrefs sp)) \<and> netloc (urlparse u) = dmn}"
    using facts by (auto simp: check_link_def)
  show "distinct links"
    using facts by simp
  show "st' = st\<lparr>extralinks := extralinks st
                   @ filter (\<lambda>u. netloc (urlparse u) \<noteq> dmn)
                       (full_urls e base_url (hrefs sp))\<rparr>"
    using facts by (simp add: check_link_def)
  show "length (full_urls e base_url (hrefs sp)) = length (hrefs sp)"
    using facts by simp
qed

theorem domain_filter_witness:
  "plain_url ''http://other.example.com/page''
   \<and> check_link ''example.com'' ''http://other.example.com/page'' = False
   \<and> check_link ''example.com'' ''https://example.com/about''
   \<and> hostname_of (netloc (urlparse ''https://example.com/about'')) = hostname_of ''example.com''
   \<and> list_all plain_url
        (full_urls (env_status 200) ''http://example.com/'' (hrefs example_page))
   \<and> extract_links (env_status 200) ''example.com'' example_page ''http://example.com/'' fresh
       = (Inr [''http://example.com/about''],
          fresh\<lparr>extralinks :=
                   [''http://other.example.com/page'', ''http://www.example.com/'']\<rparr>)
   \<and> set [''http://example.com/about'']
       = {u. u \<in> set (full_urls (env_status 200) ''http://example.com/'' (hrefs example_page))
             \<and> netloc (urlparse u) = ''example.com''}
   \<and> length (full_urls (env_status 200) ''http://example.com/'' (hrefs example_page)) = 3"
proof -
  have p: "plain_url ''http://other.example.com/page''"
    by (simp add: plain_url_def)
  have a: "check_link ''example.com'' ''http://other.example.com/page'' = False"
    by (simp add: check_link_def urlparse_defs)
  have b: "check_link ''example.com'' ''https://example.com/about''"
    by (simp add: check_link_def urlparse_defs)
  have q: "list_all plain_url
             (full_urls (env_status 200) ''http://example.com/'' (hrefs example_page))"
    by (simp add: full_urls_def example_page_def env_status_def plain_url_def)
  have h: "extract_links (env_status 200) ''example.com'' example_page ''http://example.com/''
             fresh
           = (Inr [''http://example.com/about''],
              fresh\<lparr>extralinks :=
                       [''http://other.example.com/page'', ''http://www.example.com/'']\<rparr>)"
    by (simp add: extract_links_def example_page_def env_status_def check_link_def
        add_to_extralinks_def fresh_def urlparse_defs)
  have c: "length (hrefs example_page) = 3"
    by (simp add: example_page_def)
  from domain_filter[of "''https://example.com/about''" "''example.com''"] b
  have host: "hostname_of (netloc (urlparse ''https://example.com/about''))
              = hostname_of ''example.com''"
    by blast
  from domain_filter[of "''http://other.example.com/page''" "''example.com''"
      "env_status 200" "''http://example.com/''" example_page fresh] q h
  have "set [''http://example.com/about'']
        = {u. u \<in> set (full_urls (env_status 200) ''http://example.com/'' (hrefs example_page))
              \<and> netloc (urlparse u) = ''example.com''}
        \<and> length (full_urls (env_status 200) ''http://example.com/'' (hrefs example_page))
          = length (hrefs example_page)"
    by blast
  with p a b host q h c show ?thesis by simp
qed

section \<open>Processing one page\<close>

lemma process_page_outcome:
  "fst (process_page e sp url st) = fst (process_page e sp url st2)"
  by (simp add: process_page_def write_text_def Let_def)

lemma process_page_frame:
  "visitedlinks (snd (process_page e sp url st)) = visitedlinks st
   \<and> stdout (snd (process_page e sp url st)) = stdout st
   \<and> requests (snd (process_page e sp url st)) = requests st
   \<and> status_disk (snd (process_page e sp url st)) = status_disk st"
  by (simp add: process_page_def write_text_def Let_def)

text \<open>
  Whether parsing, link extraction or text processing raises is decided by the
  environment alone, not by the state in which the page is processed.
\<close>

lemma page_steps_outcome:
  "fst (page_steps e url content st) = fst (page_steps e url content st2)"
proof (cases "html_parser e content")
  case (Inl x)
  then show ?thesis by (simp add: page_steps_def)
next
  case (Inr sp)
  obtain r1 s1 where a: "extract_links e domain sp url st = (r1, s1)" by fastforce
  have "fst (extract_links e domain sp url st2) = r1"
    using a extract_loop_outcome[of e domain url "hrefs sp" "[]" st st2]
    by (simp add: extract_links_def)
  then obtain s2 where b: "extract_links e domain sp url st2 = (r1, s2)"
    by (cases "extract_links e domain sp url st2") simp
  show ?thesis
  proof (cases r1)
    case failed: (Inl y)
    with Inr a b show ?thesis
      by (simp add: page_steps_def)
  next
    case links: (Inr links)
    obtain p1 t1 where c: "process_page e sp url s1 = (p1, t1)" by fastforce
    have "fst (process_page e sp url s2) = p1"
      using c process_page_outcome[of e sp url s1 s2] by simp
    then obtain t2 where d: "process_page e sp url s2 = (p1, t2)"
      by (cases "process_page e sp url s2") simp
    with Inr a b links c show ?thesis
      by (cases p1) (simp_all add: page_steps_def)
  qed
qed

text \<open>These three steps leave the ledger, the output and the request log alone.\<close>

lemma page_steps_frame:
  "visitedlinks (snd (page_steps e url content st)) = visitedlinks st
   \<and> stdout (snd (page_steps e url content st)) = stdout st
   \<and> requests (snd (page_steps e url content st)) = requests st
   \<and> status_disk (snd (page_steps e url content st)) = status_disk st"
proof (cases "html_parser e content")
  case (Inl x)
  then show ?thesis by (simp add: page_steps_def)
next
  case (Inr sp)
  obtain r1 s1 where a: "extract_links e domain sp url st = (r1, s1)" by fastforce
  have f1: "visitedlinks s1 = visitedlinks st \<and> stdout s1 = stdout st
            \<and> requests s1 = requests st \<and> status_disk s1 = status_disk st"
    using a extract_loop_frame[of e domain url "hrefs sp" "[]" st]
    by (simp add: extract_links_def)
  show ?thesis
  proof (cases r1)
    case (Inl x)
    with Inr a f1 show ?thesis by (simp add: page_steps_def)
  next
    case links: (Inr links)
    obtain p1 t1 where c: "process_page e sp url s1 = (p1, t1)" by fastforce
    have "visitedlinks t1 = visitedlinks s1 \<and> stdout t1 = stdout s1
            \<and> requests t1 = requests s1 \<and> status_disk t1 = status_disk s1"
      using c process_page_frame[of e sp url s1] by simp
    with Inr a f1 links c show ?thesis
      by (cases p1) (simp_all add: page_steps_def)
  qed
qed

text \<open>
  Claim C8. Let the fetch of an unclaimed URL succeed with status 200, and let
  parsing, link extraction or text processing of that page raise an exception \<open>x\<close>.
  Then \<open>scrape\<close> catches it: the message naming the URL and \<open>x\<close> is printed, the
  ledger still records the URL as \<open>success\<close>, and \<open>scrape\<close> goes on to save the
  ledger. What \<open>scrape\<close> hands to its caller is the outcome of that save, never \<open>x\<close>: a
  normal return exactly when the ledger file can be written.
\<close>

theorem page_exception_is_contained:
  assumes "visitedlinks st url = None"
    and "http_get e url = Inr (Response 200 content)"
    and "fst (page_steps e url content st) = Inl x"
  shows "\<exists>st'. scrape e (Suc n) url st = Some (save_status e st')
           \<and> visitedlinks st' = (visitedlinks st)(url \<mapsto> ''success'')
           \<and> stdout st' = stdout st @ [''Visiting: '' @ url, error_message url x]
           \<and> visitedlinks (snd (save_status e st')) url = Some ''success''
           \<and> (fst (save_status e st') = Inr ()) = (\<not> unwritable e status_file)"
proof -
  define sv where "sv = print_line (''Visiting: '' @ url) (set_status url ''pending'' st)"
  define s0 where "s0 = set_status url ''success'' (sv\<lparr>requests := requests sv @ [url]\<rparr>)"
  have "fst (page_steps e url content s0) = Inl x"
    using assms(3) page_steps_outcome[of e url content s0 st] by simp
  then obtain s1 where ps: "page_steps e url content s0 = (Inl x, s1)"
    by (cases "page_steps e url content s0") simp
  have c: "claim url st = (True, set_status url ''pending'' st)"
    using assms(1) by (simp add: claim_def)
  have tb: "try_block e (scrape e n) url content s0 = Some (Inl x, s1)"
    using ps by (simp add: try_block_def)
  have run: "scrape e (Suc n) url st
             = Some (save_status e (print_line (error_message url x) s1))"
    using c fetch_200[OF assms(2), of sv] tb
    by (simp add: sv_def s0_def)
  have fr: "visitedlinks s1 = visitedlinks s0 \<and> stdout s1 = stdout s0"
    using ps page_steps_frame[of e url content s0] by simp
  let ?s = "print_line (error_message url x) s1"
  have v: "visitedlinks ?s = (visitedlinks st)(url \<mapsto> ''success'')"
    using fr by (simp add: print_line_def set_status_def s0_def sv_def)
  have out: "stdout ?s = stdout st @ [''Visiting: '' @ url, error_message url x]"
    using fr by (simp add: print_line_def set_status_def s0_def sv_def)
  have kept: "visitedlinks (snd (save_status e ?s)) url = Some ''success''"
    using v by (simp add: save_status_def)
  have res: "(fst (save_status e ?s) = Inr ()) = (\<not> unwritable e status_file)"
    by (simp add: save_status_def)
  show ?thesis
    by (rule exI[of _ ?s]) (intro conjI run v out kept res)
qed

theorem page_exception_is_contained_witness:
  "visitedlinks fresh mainurl = None
   \<and> http_get env_broken_page mainurl = Inr (Response 200 ''page'')
   \<and> fst (page_steps env_broken_page mainurl ''page'' fresh) = Inl ParserError
   \<and> (\<exists>st'. scrape env_broken_page (Suc 0) mainurl fresh = Some (Inr (), st')
          \<and> visitedlinks st' mainurl = Some ''success''
          \<and> stdout st' = [''Visiting: '' @ mainurl, error_message mainurl ParserError])"
proof -
  have h1: "visitedlinks fresh mainurl = None"
    by (simp add: fresh_def)
  have h2: "http_get env_broken_page mainurl = Inr (Response 200 ''page'')"
    by (simp add: env_broken_page_def env_status_def)
  have h3: "fst (page_steps env_broken_page mainurl ''page'' fresh) = Inl ParserError"
    by (simp add: page_steps_def env_broken_page_def env_status_def)
  have w: "\<not> unwritable env_broken_page status_file"
    by (simp add: env_broken_page_def env_status_def)
  from page_exception_is_contained[OF h1 h2 h3, of 0]
  obtain st' where run: "scrape env_broken_page (Suc 0) mainurl fresh
                         = Some (save_status env_broken_page st')"
    and v: "visitedlinks (snd (save_status env_broken_page st')) mainurl = Some ''success''"
    and out: "stdout st' = stdout fresh
                @ [''Visiting: '' @ mainurl, error_message mainurl ParserError]"
    by blast
  let ?t = "snd (save_status env_broken_page st')"
  have "save_status env_broken_page st' = (Inr (), ?t)"
    using w by (simp add: save_status_def)
  with run have r: "scrape env_broken_page (Suc 0) mainurl fresh = Some (Inr (), ?t)"
    by simp
  have o: "stdout ?t = [''Visiting: '' @ mainurl, error_message mainurl ParserError]"
    using out w by (simp add: save_status_def fresh_def)
  have "\<exists>st'. scrape env_broken_page (Suc 0) mainurl fresh = Some (Inr (), st')
          \<and> visitedlinks st' mainurl = Some ''success''
          \<and> stdout st' = [''Visiting: '' @ mainurl, error_message mainurl ParserError]"
    by (rule exI[of _ ?t]) (intro conjI r v o)
  with h1 h2 h3 show ?thesis by blast
qed

section \<open>Routing of links\<close>

lemma make_tasks_download:
  "(DownloadPdf link \<in> set (make_tasks links))
   = (link \<in> set links \<and> \<not> contains (lower link) ''lxml''
      \<and> endswith (lower link) ''.pdf'')"
  by (induction links) auto

lemma make_tasks_scrape:
  "(Scrape link \<in> set (make_tasks links))
   = (link \<in> set links \<and> \<not> contains (lower link) ''lxml''
      \<and> \<not> endswith (lower link) ''.pdf'')"
  by (induction links) auto

lemma make_tasks_list:
  "make_tasks links
   = map (\<lambda>link. if endswith (lower link) ''.pdf'' then DownloadPdf link else Scrape link)
       (filter (\<lambda>link. \<not> contains (lower link) ''lxml'') links)"
  by (induction links) auto

text \<open>
  Claim C5, as stated, fails: the test is made on the whole link, not on its path. The
  link \<open>https://www.wscacademy.org/a.pdf?v=2\<close>, whose path ends in \<open>.pdf\<close>, is handed
  to \<open>scrape\<close>, the HTML path.
\<close>

theorem pdf_path_with_query_is_scraped:
  "endswith (path (urlparse pdf_query_url)) ''.pdf''
   \<and> make_tasks [pdf_query_url] = [Scrape pdf_query_url]"
  by (simp add: pdf_query_url_def endswith_def urlparse_defs)

text \<open>
  Claim C5, amended. The links extracted from a page that contain \<open>lxml\<close>, in lower
  case, are dropped. Each of the others becomes one task, in order: a download task
  when the whole link, in lower case, ends in \<open>.pdf\<close>, and a scrape task otherwise. So
  a link is handed to \<open>download_pdf\<close> exactly when it does not contain \<open>lxml\<close> and
  ends in \<open>.pdf\<close>, and to \<open>scrape\<close> exactly when it does not contain \<open>lxml\<close> and does
  not end in \<open>.pdf\<close>. The choice reads the link only, so no response or content type
  can change it. A download task runs \<open>download_pdf\<close> and nothing else; a scrape task
  runs \<open>scrape\<close>. The seed is always handed to \<open>scrape\<close>.
\<close>

theorem pdf_routing_by_link_suffix:
  "make_tasks links
     = map (\<lambda>link. if endswith (lower link) ''.pdf'' then DownloadPdf link else Scrape link)
         (filter (\<lambda>link. \<not> contains (lower link) ''lxml'') links)
   \<and> (DownloadPdf link \<in> set (make_tasks links))
     = (link \<in> set links \<and> \<not> contains (lower link) ''lxml''
        \<and> endswith (lower link) ''.pdf'')
   \<and> (Scrape link \<in> set (make_tasks links))
     = (link \<in> set links \<and> \<not> contains (lower link) ''lxml''
        \<and> \<not> endswith (lower link) ''.pdf'')
   \<and> run_task e rec_scrape (DownloadPdf link) st = Some (Inr (), download_pdf e link st)
   \<and> run_task e (scrape e n) (Scrape link) st = scrape e n link st
   \<and> main e n st = scrape e n mainurl st"
proof -
  have "run_task e rec_scrape (DownloadPdf link) st = Some (Inr (), download_pdf e link st)"
    and "run_task e (scrape e n) (Scrape link) st = scrape e n link st"
    and "main e n st = scrape e n mainurl st"
    by (simp_all add: run_task_def main_def)
  then show ?thesis
    by (intro conjI make_tasks_list make_tasks_download make_tasks_scrape)
qed

section \<open>Resuming from a ledger file\<close>





section \<open>Where the program departs from the ledger discipline\<close>

text \<open>
  Claim C2 does not hold of \<open>download_pdf\<close>, which writes the ledger without looking
  at it: a document recorded as \<open>failed\<close> becomes \<open>success\<close>, one recorded as
  \<open>success\<close> becomes \<open>failed\<close>, and an unclaimed one becomes \<open>success\<close> without ever
  being \<open>pending\<close>.
\<close>

theorem download_pdf_overwrites_terminal:
  "visitedlinks (download_pdf env_site pdf_url (set_status pdf_url ''failed'' fresh)) pdf_url
     = Some ''success''
   \<and> visitedlinks
        (download_pdf (env_status 404) pdf_url (set_status pdf_url ''success'' fresh)) pdf_url
     = Some ''failed''
   \<and> visitedlinks fresh pdf_url = None
   \<and> visitedlinks (download_pdf env_site pdf_url fresh) pdf_url = Some ''success''"
  by (simp add: download_pdf_def session_get_def write_pdf_def set_status_def
      env_site_def env_status_def fresh_def)

text \<open>
  Claim C4 does not hold for transport exceptions. When the request raises, the
  exception leaves \<open>scrape\<close> and the URL stays \<open>pending\<close>; \<open>download_pdf\<close>, in the same
  situation, catches the exception and marks the URL \<open>failed\<close>.
\<close>

theorem transport_error_leaves_scrape:
  "scrape env_down (Suc n) mainurl fresh
     = Some (Inl ClientError,
             fresh\<lparr>visitedlinks := [mainurl \<mapsto> ''pending''], requests := [mainurl],
                   stdout := [''Visiting: '' @ mainurl]\<rparr>)
   \<and> visitedlinks (download_pdf env_down pdf_url fresh) pdf_url = Some ''failed''"
  by (simp add: claim_def fetch_def session_get_def set_status_def print_line_def
      download_pdf_def pdf_except_def env_down_def env_status_def fresh_def)

end
